theory Spec2Isabelle
  imports Complex_Main "HOL-Library.Sublist" "HOL-Library.Signed_Division"
begin

section \<open>Presentation helpers of \<^verbatim>\<open>src/common/formatter.cpp\<close>\<close>

text \<open>
  The file \<^verbatim>\<open>formatter.cpp\<close> formats durations, timestamps and coordinates and
  recovers a timestamp from a text by trying a catalogue of date-time patterns.
  The functions of namespace \<^verbatim>\<open>formatter\<close> are embedded below under their own
  names. What they call in Qt and in the atools library is not part of the file:
  the string operations of \<^verbatim>\<open>QString\<close> are modelled from the Qt documentation,
  and the services whose results depend on the machine (locales, translations,
  the coordinate parser) are fields of the record \<open>host\<close>.

  Conventions.
  \<^item> A \<^verbatim>\<open>QString\<close> is a \<open>string\<close>; the model is exact for ASCII text.
  \<^item> A \<^verbatim>\<open>double\<close> is the \<open>real\<close> number it holds. An arithmetic operation on
    doubles yields the exact result rounded to a double; the rounding is the
    function \<open>to_double\<close> of the host. \<^verbatim>\<open>std::floor\<close>, \<^verbatim>\<open>std::round\<close> and the
    conversion of an \<^verbatim>\<open>int\<close> to \<^verbatim>\<open>double\<close> are exact.
  \<^item> An \<^verbatim>\<open>int\<close> is an \<open>int\<close>. The conversion of a \<^verbatim>\<open>double\<close> to \<^verbatim>\<open>int\<close>
    truncates towards zero; C++ leaves it undefined when the result does not
    fit the 32 bits, so the model describes the code only for a \<^verbatim>\<open>double\<close>
    strictly between \<open>- 2 ^ 31 - 1\<close> and \<open>2 ^ 31\<close>, and a theorem about every
    value of a \<^verbatim>\<open>double\<close> carries this range as a hypothesis. The conversion of
    a 64-bit integer to \<^verbatim>\<open>int\<close> keeps the low 32 bits, which is written out.
\<close>

subsection \<open>QString operations\<close>

text \<open>\<^verbatim>\<open>QString::contains(const QString &)\<close>: the argument occurs as a substring.\<close>

fun contains :: "string \<Rightarrow> string \<Rightarrow> bool" where
  "contains [] sub = (sub = [])"
| "contains (c # cs) sub = (prefix sub (c # cs) \<or> contains cs sub)"

text \<open>\<^verbatim>\<open>QString::endsWith(const QString &)\<close>.\<close>

definition endsWith :: "string \<Rightarrow> string \<Rightarrow> bool" where
  "endsWith s e = prefix (rev e) (rev s)"

text \<open>
  \<^verbatim>\<open>QString::replace(const QString &before, const QString &after)\<close> replaces every
  occurrence of the text \<open>bef\<close> by \<open>aft\<close>, searching from the left and resuming
  behind each occurrence found. An empty \<open>bef\<close> matches once at every position,
  the end included.
\<close>

fun replace_from :: "string \<Rightarrow> string \<Rightarrow> string \<Rightarrow> string" where
  "replace_from bef aft [] = []"
| "replace_from bef aft (c # cs) =
     (if prefix bef (c # cs)
      then aft @ replace_from bef aft (drop (length bef - 1) cs)
      else c # replace_from bef aft cs)"

definition replace :: "string \<Rightarrow> string \<Rightarrow> string \<Rightarrow> string" where
  "replace s bef aft =
     (if bef = [] then aft @ concat (map (\<lambda>c. c # aft) s)
      else replace_from bef aft s)"

text \<open>
  \<^verbatim>\<open>QChar::isSpace\<close> on ASCII: the characters \<^verbatim>\<open>\t \n \v \f \r\<close> and the space.
\<close>

definition isSpace :: "char \<Rightarrow> bool" where
  "isSpace c = (c \<in> set [CHR 0x09, CHR 0x0A, CHR 0x0B, CHR 0x0C, CHR 0x0D, CHR '' ''])"

text \<open>
  \<^verbatim>\<open>QString::simplified()\<close>: whitespace is removed from both ends and every
  interior run of whitespace becomes one space. \<open>split_ws\<close> cuts the text into
  its maximal whitespace-free pieces; \<open>join_space\<close> puts one space between them.
\<close>

fun split_ws :: "string \<Rightarrow> string \<Rightarrow> string list" where
  "split_ws w [] = (if w = [] then [] else [w])"
| "split_ws w (c # cs) =
     (if isSpace c then (if w = [] then split_ws [] cs else w # split_ws [] cs)
      else split_ws (w @ [c]) cs)"

fun join_space :: "string list \<Rightarrow> string" where
  "join_space [] = []"
| "join_space [w] = w"
| "join_space (w # v # ws) = w @ CHR '' '' # join_space (v # ws)"

definition simplified :: "string \<Rightarrow> string" where
  "simplified s = join_space (split_ws [] s)"

text \<open>
  The regular expression \<^verbatim>\<open>\byy\b\<close>. A word character is an ASCII letter, a digit
  or the underscore; \<^verbatim>\<open>\b\<close> holds between two positions when exactly one of the
  neighbouring characters is a word character, the ends of the text counting as
  none. \<open>contains_byyb prev s\<close> says that \<^verbatim>\<open>\byy\b\<close> matches somewhere in \<open>s\<close>,
  where \<open>prev\<close> is the character before \<open>s\<close>.
\<close>

definition isWordChar :: "char \<Rightarrow> bool" where
  "isWordChar c =
     (c \<in> set ''abcdefghijklmnopqrstuvwxyz'' \<or> c \<in> set ''ABCDEFGHIJKLMNOPQRSTUVWXYZ''
      \<or> c \<in> set ''0123456789'' \<or> c = CHR ''_'')"

definition isWord :: "char option \<Rightarrow> bool" where
  "isWord oc = (case oc of None \<Rightarrow> False | Some c \<Rightarrow> isWordChar c)"

definition wordBoundary :: "char option \<Rightarrow> char option \<Rightarrow> bool" where
  "wordBoundary l r = (isWord l \<noteq> isWord r)"

fun first_char :: "string \<Rightarrow> char option" where
  "first_char [] = None"
| "first_char (c # cs) = Some c"

definition byyb_here :: "char option \<Rightarrow> string \<Rightarrow> bool" where
  "byyb_here prev s =
     (prefix ''yy'' s \<and> wordBoundary prev (Some CHR ''y'')
      \<and> wordBoundary (Some CHR ''y'') (first_char (drop 2 s)))"

fun contains_byyb :: "char option \<Rightarrow> string \<Rightarrow> bool" where
  "contains_byyb prev [] = False"
| "contains_byyb prev (c # cs) = (byyb_here prev (c # cs) \<or> contains_byyb (Some c) cs)"

subsection \<open>Numbers as text\<close>

text \<open>
  The decimal digits of a natural number, and the rendering of an \<^verbatim>\<open>int\<close> in the
  C locale (no grouping), which \<^verbatim>\<open>QString::arg\<close> uses for a place marker
  without \<^verbatim>\<open>L\<close>.
\<close>

definition digit_char :: "nat \<Rightarrow> char" where
  "digit_char d = ''0123456789'' ! d"

fun digits :: "nat \<Rightarrow> string" where
  "digits n =
     (if n < 10 then [digit_char n]
      else digits (n div 10) @ [digit_char (n mod 10)])"

declare digits.simps [simp del]

definition c_number :: "int \<Rightarrow> string" where
  "c_number a = (if a < 0 then CHR ''-'' # digits (nat (- a)) else digits (nat a))"

text \<open>
  The number text of \<^verbatim>\<open>arg(a, fieldWidth, 10, QChar('0'))\<close>: the fill character
  \<^verbatim>\<open>'0'\<close> selects zero padding up to the field width, with the sign, if any, in
  front of the zeros and counted in the width.
\<close>

definition zero_padded :: "nat \<Rightarrow> int \<Rightarrow> string" where
  "zero_padded fieldWidth a =
     (let num_str = digits (nat \<bar>a\<bar>)
      in if a < 0
         then CHR ''-'' # replicate (fieldWidth - 1 - length num_str) CHR ''0'' @ num_str
         else replicate (fieldWidth - length num_str) CHR ''0'' @ num_str)"

text \<open>
  \<^verbatim>\<open>static_cast<int>(double)\<close> truncates towards zero. The result is that of the
  code for an argument strictly between \<open>- 2 ^ 31 - 1\<close> and \<open>2 ^ 31\<close>; outside,
  the conversion is undefined in C++. \<^verbatim>\<open>std::floor\<close> is \<open>floor\<close>.
\<close>

definition static_cast_int :: "real \<Rightarrow> int" where
  "static_cast_int x = (if 0 \<le> x then \<lfloor>x\<rfloor> else \<lceil>x\<rceil>)"

text \<open>
  Modelled from the spec: \<^verbatim>\<open>atools::roundToInt\<close> is declared in \<^verbatim>\<open>atools.h\<close>, which
  is not among the sources. The specification says that minute rounding is
  round-half-away-from-zero, which is what \<^verbatim>\<open>std::round\<close> computes.
\<close>

definition roundToInt :: "real \<Rightarrow> int" where
  "roundToInt x = (if 0 \<le> x then \<lfloor>x + 1 / 2\<rfloor> else \<lceil>x - 1 / 2\<rceil>)"

text \<open>
  \<^verbatim>\<open>static_cast<int>\<close> of a \<^verbatim>\<open>qint64\<close> keeps the low 32 bits, read as a signed
  number.
\<close>

definition int32 :: "int \<Rightarrow> int" where
  "int32 x = signed_take_bit 31 x"

subsection \<open>Place markers: \<^verbatim>\<open>QString::arg\<close>\<close>

text \<open>
  A place marker is \<^verbatim>\<open>%\<close>, an optional \<^verbatim>\<open>L\<close>, and one or two decimal digits.
  \<^verbatim>\<open>arg\<close> replaces every marker that carries the lowest number in the text: by
  the plain text of the argument, or by its localised text where the marker has
  the \<^verbatim>\<open>L\<close>. A text without a marker is returned as it is. \<open>findArgEscapes\<close> and
  \<open>replaceArgEscapes\<close> follow the two functions of these names in
  \<^verbatim>\<open>qstring.cpp\<close>.
\<close>

datatype arg_token = Lit char | Escape bool nat string

definition digitValue :: "char \<Rightarrow> nat option" where
  "digitValue c =
     (if c \<in> set ''0123456789'' then Some (of_char c - 48) else None)"

definition parse_escape :: "string \<Rightarrow> (bool \<times> nat \<times> nat) option" where
  "parse_escape cs =
     (let (locale_arg, ds, k) =
            (case cs of c # r \<Rightarrow> if c = CHR ''L'' then (True, r, 1::nat) else (False, cs, 0)
                      | [] \<Rightarrow> (False, cs, 0))
      in case ds of
           [] \<Rightarrow> None
         | d1 # r1 \<Rightarrow>
             (case digitValue d1 of
                None \<Rightarrow> None
              | Some v1 \<Rightarrow>
                  (case r1 of
                     [] \<Rightarrow> Some (locale_arg, v1, k + 1)
                   | d2 # r2 \<Rightarrow>
                       (case digitValue d2 of
                          None \<Rightarrow> Some (locale_arg, v1, k + 1)
                        | Some v2 \<Rightarrow> Some (locale_arg, 10 * v1 + v2, k + 2)))))"

function findArgEscapes :: "string \<Rightarrow> arg_token list" where
  "findArgEscapes [] = []"
| "findArgEscapes (c # cs) =
     (if c = CHR ''%''
      then (case parse_escape cs of
              Some (locale_arg, escape, k) \<Rightarrow>
                Escape locale_arg escape (c # take k cs) # findArgEscapes (drop k cs)
            | None \<Rightarrow> Lit c # findArgEscapes cs)
      else Lit c # findArgEscapes cs)"
  by pat_completeness auto
termination
  by (relation "measure length") auto

fun min_escape :: "arg_token list \<Rightarrow> nat option" where
  "min_escape [] = None"
| "min_escape (Lit c # ts) = min_escape ts"
| "min_escape (Escape locale_arg escape txt # ts) =
     (case min_escape ts of None \<Rightarrow> Some escape | Some m \<Rightarrow> Some (min escape m))"

fun replace_token :: "nat \<Rightarrow> string \<Rightarrow> string \<Rightarrow> arg_token \<Rightarrow> string" where
  "replace_token m arg larg (Lit c) = [c]"
| "replace_token m arg larg (Escape locale_arg escape txt) =
     (if escape = m then (if locale_arg then larg else arg) else txt)"

definition replaceArgEscapes :: "string \<Rightarrow> string \<Rightarrow> string \<Rightarrow> string" where
  "replaceArgEscapes s arg larg =
     (case min_escape (findArgEscapes s) of
        None \<Rightarrow> s
      | Some m \<Rightarrow> concat (map (replace_token m arg larg) (findArgEscapes s)))"

subsection \<open>The host: Qt, the locales and the atools library\<close>

datatype QDateTime = NullDateTime | InvalidDateTime | DateTime int

fun isValid :: "QDateTime \<Rightarrow> bool" where
  "isValid (DateTime t) = True"
| "isValid _ = False"

fun isNull :: "QDateTime \<Rightarrow> bool" where
  "isNull NullDateTime = True"
| "isNull _ = False"

datatype FormatType = LongFormat | ShortFormat | NarrowFormat

datatype DateFormat = DefaultLocaleShortDate | DefaultLocaleLongDate

text \<open>
  A \<^verbatim>\<open>QLocale\<close>: its date-time pattern of each width, its parser of a text under
  a pattern, and its rendering of an integer (\<open>toStringPadded\<close> is the rendering
  that a marker \<^verbatim>\<open>%L\<close> receives from an \<^verbatim>\<open>arg\<close> with a field width and fill
  character \<^verbatim>\<open>'0'\<close>).
\<close>

record QLocale =
  dateTimeFormat :: "FormatType \<Rightarrow> string"
  toDateTime :: "string \<Rightarrow> string \<Rightarrow> QDateTime"
  toString :: "int \<Rightarrow> string"
  toStringPadded :: "nat \<Rightarrow> int \<Rightarrow> string"

text \<open>
  Everything else the file relies on: the rounding \<open>to_double\<close> of an exact
  arithmetic result to a \<^verbatim>\<open>double\<close>, \<^verbatim>\<open>QObject::tr\<close>, the default locale \<^verbatim>\<open>QLocale()\<close>,
  \<^verbatim>\<open>QLocale::system()\<close>, the locale \<^verbatim>\<open>QLocale::English\<close>, \<^verbatim>\<open>QDateTime::setTime_t\<close>
  on a UTC date-time, \<^verbatim>\<open>QDateTime::toString(Qt::DateFormat)\<close>,
  \<^verbatim>\<open>atools::fs::util::fromAnyFormat\<close>, \<^verbatim>\<open>atools::geo::Pos::isValid\<close>,
  \<^verbatim>\<open>Unit::coords\<close> and \<^verbatim>\<open>atools::util::HtmlBuilder::errorMessage\<close>.
\<close>

record 'pos host =
  to_double :: "real \<Rightarrow> real"
  tr :: "string \<Rightarrow> string"
  defaultLocale :: QLocale
  systemLocale :: QLocale
  englishLocale :: QLocale
  setTime_t :: "int \<Rightarrow> QDateTime"
  dateTimeToString :: "QDateTime \<Rightarrow> DateFormat \<Rightarrow> string"
  fromAnyFormat :: "string \<Rightarrow> 'pos"
  posIsValid :: "'pos \<Rightarrow> bool"
  coords :: "'pos \<Rightarrow> string"
  errorMessage :: "string \<Rightarrow> string"

text \<open>The overloads of \<^verbatim>\<open>QString::arg\<close> that the file uses.\<close>

definition arg_str :: "string \<Rightarrow> string \<Rightarrow> string" where
  "arg_str s a = replaceArgEscapes s a a"

definition arg_int :: "'pos host \<Rightarrow> string \<Rightarrow> int \<Rightarrow> string" where
  "arg_int H s a = replaceArgEscapes s (c_number a) (toString (defaultLocale H) a)"

definition arg_int_padded :: "'pos host \<Rightarrow> string \<Rightarrow> int \<Rightarrow> nat \<Rightarrow> string" where
  "arg_int_padded H s a fieldWidth =
     replaceArgEscapes s (zero_padded fieldWidth a)
       (toStringPadded (defaultLocale H) fieldWidth a)"

subsection \<open>Duration formatters\<close>

text \<open>
  The minutes are computed in \<^verbatim>\<open>double\<close> arithmetic: the difference and the
  product are each rounded by \<open>to_double\<close>.
\<close>

definition formatMinutesHours :: "'pos host \<Rightarrow> real \<Rightarrow> string" where
  "formatMinutesHours H time =
     (let hours = static_cast_int time;
          minutes = roundToInt (to_double H (to_double H (time - real_of_int hours) * 60));
          (hours, minutes) = (if minutes = 60 then (hours + 1, 0) else (hours, minutes))
      in arg_int_padded H
           (arg_str (tr H ''%1:%2'') (toString (defaultLocale H) hours)) minutes 2)"

definition formatMinutesHoursLong :: "'pos host \<Rightarrow> real \<Rightarrow> string" where
  "formatMinutesHoursLong H time =
     (let hours = static_cast_int time;
          minutes = roundToInt (to_double H (to_double H (time - real_of_int hours) * 60));
          (hours, minutes) = (if minutes = 60 then (hours + 1, 0) else (hours, minutes))
      in arg_int_padded H
           (arg_str (tr H ''%1 h %2 m'') (toString (defaultLocale H) hours)) minutes 2)"

definition formatMinutesHoursDays :: "'pos host \<Rightarrow> real \<Rightarrow> string" where
  "formatMinutesHoursDays H time =
     (let days = static_cast_int time sdiv 24;
          hours = static_cast_int time - days * 24;
          minutes = roundToInt (to_double H (to_double H (time - real_of_int \<lfloor>time\<rfloor>) * 60))
      in arg_int_padded H
           (arg_int_padded H
              (arg_str (tr H ''%1:%2:%3'') (toString (defaultLocale H) days))
              hours 2)
           minutes 2)"

definition formatMinutesHoursDaysLong :: "'pos host \<Rightarrow> real \<Rightarrow> string" where
  "formatMinutesHoursDaysLong H time =
     (let days = static_cast_int time sdiv 24;
          hours = static_cast_int time - days * 24;
          minutes = roundToInt (to_double H (to_double H (time - real_of_int \<lfloor>time\<rfloor>) * 60));
          retval = [];
          retval = (if days > 0
                    then retval @ arg_str (tr H ''%1 d'') (toString (defaultLocale H) days)
                    else retval);
          retval = (if hours > 0
                    then (if retval \<noteq> []
                          then retval @ arg_int_padded H (tr H '' %1 h'') hours 2
                          else retval @ arg_str (tr H ''%1 h'')
                                          (toString (defaultLocale H) hours))
                    else retval);
          retval = (if retval \<noteq> []
                    then retval @ arg_int_padded H (tr H '' %1 m'') minutes 2
                    else retval @ arg_str (tr H ''%1 m'')
                                    (toString (defaultLocale H) minutes))
      in retval)"

subsection \<open>Date rendering\<close>

text \<open>
  \<open>timeT\<close> is the value of the \<^verbatim>\<open>int\<close> argument; \<^verbatim>\<open>static_cast<uint>(timeT)\<close> is
  its value modulo \<open>2 ^ 32\<close>.
\<close>

definition formatDate :: "'pos host \<Rightarrow> int \<Rightarrow> string" where
  "formatDate H timeT =
     (let dateTime = setTime_t H (take_bit 32 timeT)
      in if timeT > 0 \<and> isValid dateTime \<and> \<not> isNull dateTime
         then dateTimeToString H dateTime DefaultLocaleShortDate
         else tr H ''Invalid date'')"

definition formatDateLong :: "'pos host \<Rightarrow> int \<Rightarrow> string" where
  "formatDateLong H timeT =
     (let dateTime = setTime_t H (take_bit 32 timeT)
      in if timeT > 0 \<and> isValid dateTime \<and> \<not> isNull dateTime
         then replace (dateTimeToString H dateTime DefaultLocaleLongDate) (tr H ''UTC'') []
         else tr H ''Invalid date'')"

subsection \<open>Elapsed time\<close>

text \<open>
  \<open>elapsed\<close> is the value of \<^verbatim>\<open>timer.elapsed()\<close>, a \<^verbatim>\<open>qint64\<close> number of
  milliseconds. The division of C++ truncates towards zero (\<open>sdiv\<close>).
\<close>

definition formatElapsed :: "'pos host \<Rightarrow> int \<Rightarrow> string" where
  "formatElapsed H elapsed =
     (let secs = int32 (elapsed sdiv 1000)
      in if secs < 60
         then arg_str (arg_int H (tr H ''%L1 %2'') secs)
                (if secs = 1 then tr H ''second'' else tr H ''seconds'')
         else
           (let mins = secs sdiv 60;
                secs = secs - mins * 60
            in arg_str
                 (arg_int H
                    (arg_str (arg_int H (tr H ''%L1 %2 %L3 %4'') mins)
                       (if mins = 1 then tr H ''minute'' else tr H ''minutes''))
                    secs)
                 (if secs = 1 then tr H ''second'' else tr H ''seconds'')))"

subsection \<open>Coordinate validator\<close>

text \<open>
  The result is the returned flag together with the content of the message slot
  \<^verbatim>\<open>QString& message\<close> after the call.
\<close>

definition checkCoordinates :: "'pos host \<Rightarrow> string \<Rightarrow> string \<Rightarrow> bool \<times> string" where
  "checkCoordinates H message text =
     (let pos = fromAnyFormat H text
      in if posIsValid H pos
         then (let coords = coords H pos;
                   message = (if coords \<noteq> text
                              then arg_str (tr H ''Coordinates are valid: %1'') coords
                              else tr H ''Coordinates are valid.'')
               in (True, message))
         else (let message = errorMessage H (tr H ''Coordinates are not valid.'')
               in (False, message)))"

subsection \<open>The pattern catalogue and the parser\<close>

text \<open>
  The parameter is called \<^verbatim>\<open>dateTimeFormat\<close> in the source, a name taken here by
  the method of \<^verbatim>\<open>QLocale\<close>.
\<close>

definition yearVariant :: "string \<Rightarrow> string" where
  "yearVariant format =
     (if contains format ''yyyy'' then replace format ''yyyy'' ''yy''
      else if contains_byyb None format then replace format ''yy'' ''yyyy''
      else format)"

text \<open>
  The loop over the copy \<^verbatim>\<open>temp\<close> of the catalogue, which appends to the
  catalogue \<open>dateTimeFormats\<close> itself.
\<close>

fun add_zone_variants :: "string list \<Rightarrow> string list \<Rightarrow> string list" where
  "add_zone_variants [] dateTimeFormats = dateTimeFormats"
| "add_zone_variants (t # temp) dateTimeFormats =
     add_zone_variants temp
       (if \<not> endsWith t ''t''
        then (dateTimeFormats @ [t @ '' t'']) @ [t @ ''t'']
        else dateTimeFormats)"

text \<open>
  The state is the static list \<^verbatim>\<open>dateTimeFormats\<close>; the function takes its old
  value and returns the new one.
\<close>

definition initTranslateableTexts :: "'pos host \<Rightarrow> string list \<Rightarrow> string list" where
  "initTranslateableTexts H dateTimeFormats =
     (let locale = systemLocale H;
          dateTimeFormats = [];
          dateTimeFormats = dateTimeFormats @ [dateTimeFormat locale ShortFormat];
          dateTimeFormats = dateTimeFormats @ [dateTimeFormat locale LongFormat];
          dateTimeFormats = dateTimeFormats @ [dateTimeFormat locale NarrowFormat];
          dateTimeFormats = dateTimeFormats @ [yearVariant (dateTimeFormat locale ShortFormat)];
          dateTimeFormats = dateTimeFormats @ [yearVariant (dateTimeFormat locale LongFormat)];
          dateTimeFormats = dateTimeFormats @ [yearVariant (dateTimeFormat locale NarrowFormat)];
          localeEn = englishLocale H;
          dateTimeFormats = dateTimeFormats @ [dateTimeFormat localeEn ShortFormat];
          dateTimeFormats = dateTimeFormats @ [dateTimeFormat localeEn LongFormat];
          dateTimeFormats = dateTimeFormats @ [dateTimeFormat localeEn NarrowFormat];
          dateTimeFormats = dateTimeFormats @ [yearVariant (dateTimeFormat localeEn ShortFormat)];
          dateTimeFormats = dateTimeFormats @ [yearVariant (dateTimeFormat localeEn LongFormat)];
          dateTimeFormats = dateTimeFormats @ [yearVariant (dateTimeFormat localeEn NarrowFormat)];
          temp = dateTimeFormats
      in add_zone_variants temp dateTimeFormats)"

text \<open>
  The loop of \<^verbatim>\<open>readDateTime\<close>: \<open>retval\<close> is overwritten by each attempt, and the
  loop is left at the first valid one.
\<close>

fun readDateTime_loop :: "QLocale \<Rightarrow> string \<Rightarrow> string list \<Rightarrow> QDateTime \<Rightarrow> QDateTime" where
  "readDateTime_loop locale str [] retval = retval"
| "readDateTime_loop locale str (format # formats) retval =
     (let retval = toDateTime locale str format
      in if isValid retval then retval
         else readDateTime_loop locale str formats retval)"

definition readDateTime :: "'pos host \<Rightarrow> string list \<Rightarrow> string \<Rightarrow> QDateTime" where
  "readDateTime H dateTimeFormats str =
     (let retval = NullDateTime;
          locale = systemLocale H;
          str = simplified str
      in readDateTime_loop locale str dateTimeFormats retval)"

subsection \<open>Reference definitions for the specification\<close>

text \<open>
  The catalogue as the specification lists it: the three widths of a locale in
  the order short, long, narrow; for the system locale and then the English
  one, the three patterns followed by their year variants; and behind these
  twelve entries, two zone variants for each of them that does not end in the
  zone token \<^verbatim>\<open>t\<close>.
\<close>

definition locale_formats :: "QLocale \<Rightarrow> string list" where
  "locale_formats locale =
     [dateTimeFormat locale ShortFormat, dateTimeFormat locale LongFormat,
      dateTimeFormat locale NarrowFormat]"

definition base_formats :: "'pos host \<Rightarrow> string list" where
  "base_formats H =
     locale_formats (systemLocale H) @ map yearVariant (locale_formats (systemLocale H))
     @ locale_formats (englishLocale H) @ map yearVariant (locale_formats (englishLocale H))"

definition zone_variants :: "string \<Rightarrow> string list" where
  "zone_variants t = (if endsWith t ''t'' then [] else [t @ '' t'', t @ ''t''])"

definition catalogue_spec :: "'pos host \<Rightarrow> string list" where
  "catalogue_spec H = base_formats H @ concat (map zone_variants (base_formats H))"

text \<open>
  The result of the first pattern of a catalogue under which the locale reads a
  valid instant from the text, if there is one.
\<close>

definition first_valid :: "QLocale \<Rightarrow> string \<Rightarrow> string list \<Rightarrow> QDateTime option" where
  "first_valid locale text formats =
     map_option (toDateTime locale text)
       (find (\<lambda>format. isValid (toDateTime locale text format)) formats)"

text \<open>
  A year variant that promotes only the \<^verbatim>\<open>yy\<close> that stand at word boundaries, as
  the specification words it. \<open>promote_yy prev s\<close> rewrites \<open>s\<close>, which follows
  the character \<open>prev\<close>.
\<close>

fun promote_yy :: "char option \<Rightarrow> string \<Rightarrow> string" where
  "promote_yy prev [] = []"
| "promote_yy prev (c # cs) =
     (if byyb_here prev (c # cs) then ''yyyy'' @ promote_yy (Some CHR ''y'') (drop 1 cs)
      else c # promote_yy (Some c) cs)"

definition yearVariant_spec :: "string \<Rightarrow> string" where
  "yearVariant_spec format =
     (if contains format ''yyyy'' then replace format ''yyyy'' ''yy''
      else if contains_byyb None format then promote_yy None format
      else format)"

text \<open>
  \<open>yy_only_at_boundaries prev s\<close>: wherever \<^verbatim>\<open>yy\<close> occurs in \<open>s\<close>, it stands
  between two word boundaries.
\<close>

fun yy_only_at_boundaries :: "char option \<Rightarrow> string \<Rightarrow> bool" where
  "yy_only_at_boundaries prev [] = True"
| "yy_only_at_boundaries prev (c # cs) =
     ((prefix ''yy'' (c # cs) \<longrightarrow> byyb_here prev (c # cs))
      \<and> yy_only_at_boundaries (Some c) cs)"

text \<open>A text without a trailing label: the specification's reading of the long date.\<close>

definition strip_trailing :: "string \<Rightarrow> string \<Rightarrow> string" where
  "strip_trailing s label =
     (if endsWith s label then take (length s - length label) s else s)"

text \<open>
  A text as \<^verbatim>\<open>simplified\<close> leaves it: whitespace occurs only as a single space
  that is followed by a character other than whitespace, and the last character
  is not whitespace.
\<close>

fun single_spaced :: "string \<Rightarrow> bool" where
  "single_spaced [] = True"
| "single_spaced [c] = (\<not> isSpace c)"
| "single_spaced (c # d # cs) =
     ((\<not> isSpace c \<or> (c = CHR '' '' \<and> \<not> isSpace d)) \<and> single_spaced (d # cs))"

text \<open>
  The long rendering of a duration already split into days, hours and minutes,
  as the specification describes it: the days and the hours appear only when
  they are positive, the minutes always; the first component that appears is
  written by the locale, each later one as a zero-padded field of width two.
\<close>

definition long_duration_text :: "'pos host \<Rightarrow> int \<Rightarrow> int \<Rightarrow> int \<Rightarrow> string" where
  "long_duration_text H days hours minutes =
     (if days > 0
      then toString (defaultLocale H) days @ '' d''
           @ (if hours > 0 then '' '' @ zero_padded 2 hours @ '' h'' else [])
           @ '' '' @ zero_padded 2 minutes @ '' m''
      else if hours > 0
      then toString (defaultLocale H) hours @ '' h'' @ '' '' @ zero_padded 2 minutes @ '' m''
      else toString (defaultLocale H) minutes @ '' m'')"

text \<open>
  The elapsed-span text as the specification describes it, in the untranslated
  wording: the whole seconds \<open>s\<close> of the milliseconds; below a minute \<open>s\<close> and
  its unit, otherwise the minutes and the remaining seconds with their units,
  each unit singular exactly at 1.
\<close>

definition formatElapsed_spec :: "'pos host \<Rightarrow> int \<Rightarrow> string" where
  "formatElapsed_spec H elapsed =
     (let s = elapsed div 1000
      in if s < 60
         then toString (defaultLocale H) s @ '' '' @ (if s = 1 then ''second'' else ''seconds'')
         else toString (defaultLocale H) (s div 60) @ '' ''
              @ (if s div 60 = 1 then ''minute'' else ''minutes'') @ '' ''
              @ toString (defaultLocale H) (s mod 60) @ '' ''
              @ (if s mod 60 = 1 then ''second'' else ''seconds''))"

subsection \<open>An example host\<close>

text \<open>
  A host for concrete evaluations: its arithmetic is exact, so its results are
  those of \<^verbatim>\<open>double\<close> arithmetic wherever that is exact; no translation is
  installed, integers are written in plain decimal, the date-time patterns are those of US English, and
  the parser and the renderers know one instant, 2020-01-15 15:04 UTC. A
  position is represented by its canonical text.
\<close>

definition ex_dateTimeFormat :: "FormatType \<Rightarrow> string" where
  "ex_dateTimeFormat f =
     (case f of
        ShortFormat \<Rightarrow> ''M/d/yy h:mm AP''
      | LongFormat \<Rightarrow> ''dddd, MMMM d, yyyy h:mm:ss AP t''
      | NarrowFormat \<Rightarrow> ''M/d/yy h:mm AP'')"

definition ex_toDateTime :: "string \<Rightarrow> string \<Rightarrow> QDateTime" where
  "ex_toDateTime text format =
     (if (text = ''1/15/20 3:04 PM'' \<and> format = ''M/d/yy h:mm AP'')
         \<or> (text = ''1/15/2020 3:04 PM'' \<and> format = ''M/d/yyyy h:mm AP'')
      then DateTime 1579100640 else InvalidDateTime)"

definition ex_locale :: QLocale where
  "ex_locale =
     \<lparr> dateTimeFormat = ex_dateTimeFormat, toDateTime = ex_toDateTime,
       toString = c_number, toStringPadded = zero_padded \<rparr>"

definition ex_dateTimeToString :: "QDateTime \<Rightarrow> DateFormat \<Rightarrow> string" where
  "ex_dateTimeToString d f =
     (if d = DateTime 1579100640
      then (case f of
              DefaultLocaleShortDate \<Rightarrow> ''1/15/20 3:04 PM''
            | DefaultLocaleLongDate \<Rightarrow> ''Wednesday, January 15, 2020 3:04:00 PM UTC'')
      else [])"

definition ex_fromAnyFormat :: "string \<Rightarrow> string option" where
  "ex_fromAnyFormat text =
     (if text = ''N48 07.2 E11 34.4'' \<or> text = ''N 48 7.2 E 11 34.4''
      then Some ''N 48 7.2 E 11 34.4'' else None)"

definition ex_host :: "string option host" where
  "ex_host =
     \<lparr> to_double = (\<lambda>x. x), tr = (\<lambda>s. s), defaultLocale = ex_locale,
       systemLocale = ex_locale,
       englishLocale = ex_locale, setTime_t = DateTime,
       dateTimeToString = ex_dateTimeToString, fromAnyFormat = ex_fromAnyFormat,
       posIsValid = (\<lambda>pos. pos \<noteq> None),
       coords = (\<lambda>pos. case pos of Some c \<Rightarrow> c | None \<Rightarrow> []),
       errorMessage = (\<lambda>s. ''<b>'' @ s @ ''</b>'') \<rparr>"

text \<open>
  The same host with a long date style that puts the zone label before the
  time, as the long time patterns of some locales do.
\<close>

definition zone_first_host :: "string option host" where
  "zone_first_host =
     ex_host \<lparr> dateTimeToString :=
       (\<lambda>d f. if d = DateTime 1579100640 then ''2020-01-15 UTC 15:04:00'' else []) \<rparr>"

section \<open>Properties\<close>

subsection \<open>Building the catalogue\<close>

lemma add_zone_variants_append:
  "add_zone_variants temp formats = formats @ concat (map zone_variants temp)"
  by (induction temp arbitrary: formats) (simp_all add: zone_variants_def)

lemma initTranslateableTexts_spec: "initTranslateableTexts H old = catalogue_spec H"
  by (simp add: initTranslateableTexts_def catalogue_spec_def base_formats_def
      locale_formats_def add_zone_variants_append Let_def)

lemma catalogue_spec_ex_host:
  "catalogue_spec ex_host =
     [''M/d/yy h:mm AP'', ''dddd, MMMM d, yyyy h:mm:ss AP t'', ''M/d/yy h:mm AP'',
      ''M/d/yyyy h:mm AP'', ''dddd, MMMM d, yy h:mm:ss AP t'', ''M/d/yyyy h:mm AP'',
      ''M/d/yy h:mm AP'', ''dddd, MMMM d, yyyy h:mm:ss AP t'', ''M/d/yy h:mm AP'',
      ''M/d/yyyy h:mm AP'', ''dddd, MMMM d, yy h:mm:ss AP t'', ''M/d/yyyy h:mm AP'',
      ''M/d/yy h:mm AP t'', ''M/d/yy h:mm APt'', ''M/d/yy h:mm AP t'', ''M/d/yy h:mm APt'',
      ''M/d/yyyy h:mm AP t'', ''M/d/yyyy h:mm APt'', ''M/d/yyyy h:mm AP t'',
      ''M/d/yyyy h:mm APt'',
      ''M/d/yy h:mm AP t'', ''M/d/yy h:mm APt'', ''M/d/yy h:mm AP t'', ''M/d/yy h:mm APt'',
      ''M/d/yyyy h:mm AP t'', ''M/d/yyyy h:mm APt'', ''M/d/yyyy h:mm AP t'',
      ''M/d/yyyy h:mm APt'']"
  by code_simp

text \<open>
  Claim C2. \<open>initTranslateableTexts\<close> fills the catalogue in this order: the
  short, long and narrow pattern of the system locale, their three year
  variants, the short, long and narrow pattern of the English locale, their
  three year variants, and then, for each of these twelve entries in turn that
  does not end in the zone token \<^verbatim>\<open>t\<close>, the entry followed by a space and \<^verbatim>\<open>t\<close>
  and the entry followed by \<^verbatim>\<open>t\<close>. The catalogue is not empty afterwards.
\<close>

theorem initTranslateableTexts_order:
  "initTranslateableTexts H old = catalogue_spec H
   \<and> take 12 (initTranslateableTexts H old) =
       [dateTimeFormat (systemLocale H) ShortFormat,
        dateTimeFormat (systemLocale H) LongFormat,
        dateTimeFormat (systemLocale H) NarrowFormat,
        yearVariant (dateTimeFormat (systemLocale H) ShortFormat),
        yearVariant (dateTimeFormat (systemLocale H) LongFormat),
        yearVariant (dateTimeFormat (systemLocale H) NarrowFormat),
        dateTimeFormat (englishLocale H) ShortFormat,
        dateTimeFormat (englishLocale H) LongFormat,
        dateTimeFormat (englishLocale H) NarrowFormat,
        yearVariant (dateTimeFormat (englishLocale H) ShortFormat),
        yearVariant (dateTimeFormat (englishLocale H) LongFormat),
        yearVariant (dateTimeFormat (englishLocale H) NarrowFormat)]
   \<and> drop 12 (initTranslateableTexts H old) =
        concat (map (\<lambda>t. if endsWith t ''t'' then [] else [t @ '' t'', t @ ''t''])
          (take 12 (initTranslateableTexts H old)))
   \<and> initTranslateableTexts H old \<noteq> []"
  unfolding initTranslateableTexts_spec
  by (simp add: catalogue_spec_def base_formats_def locale_formats_def
      zone_variants_def [abs_def])

theorem initTranslateableTexts_order_witness:
  "take 12 (initTranslateableTexts ex_host [''stale'']) =
     [''M/d/yy h:mm AP'', ''dddd, MMMM d, yyyy h:mm:ss AP t'', ''M/d/yy h:mm AP'',
      ''M/d/yyyy h:mm AP'', ''dddd, MMMM d, yy h:mm:ss AP t'', ''M/d/yyyy h:mm AP'',
      ''M/d/yy h:mm AP'', ''dddd, MMMM d, yyyy h:mm:ss AP t'', ''M/d/yy h:mm AP'',
      ''M/d/yyyy h:mm AP'', ''dddd, MMMM d, yy h:mm:ss AP t'', ''M/d/yyyy h:mm AP'']
   \<and> length (initTranslateableTexts ex_host [''stale'']) = 28"
proof -
  have "initTranslateableTexts ex_host [''stale''] = catalogue_spec ex_host"
    using initTranslateableTexts_order [of ex_host "[''stale'']"] by blast
  then show ?thesis
    by (simp add: catalogue_spec_ex_host)
qed

text \<open>
  Claim C10. \<open>initTranslateableTexts\<close> clears the catalogue before it rebuilds it:
  for a fixed host, its result does not depend on the catalogue it starts from,
  so calling it any positive number of times in a row leaves the catalogue that
  one call produces, of the same length.
\<close>

theorem initTranslateableTexts_idempotent:
  "initTranslateableTexts H (initTranslateableTexts H cat) = initTranslateableTexts H cat
   \<and> (0 < n \<longrightarrow> (initTranslateableTexts H ^^ n) cat = initTranslateableTexts H cat)
   \<and> (0 < n \<longrightarrow> length ((initTranslateableTexts H ^^ n) cat)
                   = length (initTranslateableTexts H cat))"
proof -
  have once: "initTranslateableTexts H c = initTranslateableTexts H c'" for c c'
    by (simp add: initTranslateableTexts_spec)
  have "(initTranslateableTexts H ^^ Suc k) cat = initTranslateableTexts H cat" for k
    by (simp add: once [of "(initTranslateableTexts H ^^ k) cat" cat])
  then have "0 < n \<Longrightarrow> (initTranslateableTexts H ^^ n) cat = initTranslateableTexts H cat"
    by (cases n) simp_all
  then show ?thesis
    using once [of "initTranslateableTexts H cat" cat] by auto
qed

theorem initTranslateableTexts_idempotent_witness:
  "(0::nat) < 3
   \<and> (initTranslateableTexts ex_host ^^ 3) [''stale''] = initTranslateableTexts ex_host [''stale'']
   \<and> length ((initTranslateableTexts ex_host ^^ 3) [''stale'']) = 28"
proof -
  have pos: "(0::nat) < 3" by simp
  have len: "length (initTranslateableTexts ex_host [''stale'']) = 28"
    by (simp add: initTranslateableTexts_spec catalogue_spec_ex_host)
  show ?thesis
    using pos len initTranslateableTexts_idempotent [of ex_host "[''stale'']" 3] by simp
qed

subsection \<open>Date rendering\<close>

text \<open>
  Claim C7. For a timestamp \<open>timeT \<le> 0\<close>, and for a timestamp whose date-time the
  platform reports as invalid or null, the short and the long date renderer both
  return the translated text \<^verbatim>\<open>Invalid date\<close>.
\<close>

theorem formatDate_invalid:
  "timeT \<le> 0 \<or> \<not> isValid (setTime_t H (take_bit 32 timeT))
     \<or> isNull (setTime_t H (take_bit 32 timeT))
   \<Longrightarrow> formatDate H timeT = tr H ''Invalid date''
       \<and> formatDateLong H timeT = tr H ''Invalid date''"
  by (auto simp: formatDate_def formatDateLong_def Let_def)

theorem formatDate_invalid_witness:
  "formatDate ex_host 0 = ''Invalid date'' \<and> formatDateLong ex_host 0 = ''Invalid date''
   \<and> formatDate (ex_host \<lparr> setTime_t := (\<lambda>t. InvalidDateTime) \<rparr>) 1579100640 = ''Invalid date''
   \<and> formatDateLong (ex_host \<lparr> setTime_t := (\<lambda>t. InvalidDateTime) \<rparr>) 1579100640
       = ''Invalid date''"
  using formatDate_invalid [of 0 ex_host]
    formatDate_invalid [of 1579100640 "ex_host \<lparr> setTime_t := (\<lambda>t. InvalidDateTime) \<rparr>"]
  by (simp add: ex_host_def)

subsection \<open>Whitespace normalisation\<close>

lemma simplified_Nil: "simplified [] = []"
  by (simp add: simplified_def)

lemma simplified_space: "simplified '' '' = []"
  by (simp add: simplified_def isSpace_def)

lemma split_ws_words:
  "list_all (\<lambda>c. \<not> isSpace c) w \<Longrightarrow>
   list_all (\<lambda>v. v \<noteq> [] \<and> list_all (\<lambda>c. \<not> isSpace c) v) (split_ws w s)"
proof (induction w s rule: split_ws.induct)
  case (1 w)
  then show ?case by simp
next
  case (2 w c cs)
  show ?case
  proof (cases "isSpace c")
    case True
    then show ?thesis using 2 by (cases "w = []") simp_all
  next
    case False
    then show ?thesis using 2 by simp
  qed
qed

lemma filter_join_space:
  "filter (\<lambda>c. \<not> isSpace c) (join_space ws) = filter (\<lambda>c. \<not> isSpace c) (concat ws)"
  by (induction ws rule: join_space.induct) (simp_all add: isSpace_def)

lemma concat_split_ws:
  "list_all (\<lambda>c. \<not> isSpace c) w \<Longrightarrow>
   concat (split_ws w s) = w @ filter (\<lambda>c. \<not> isSpace c) s"
  by (induction w s rule: split_ws.induct) (simp_all add: list_all_iff)

text \<open>\<open>simplified\<close> changes nothing but whitespace.\<close>

lemma simplified_keeps_text:
  "filter (\<lambda>c. \<not> isSpace c) (simplified s) = filter (\<lambda>c. \<not> isSpace c) s"
  by (simp add: simplified_def filter_join_space concat_split_ws)

lemma single_spaced_word:
  "v \<noteq> [] \<Longrightarrow> list_all (\<lambda>c. \<not> isSpace c) v \<Longrightarrow> single_spaced v"
  by (induction v rule: single_spaced.induct) simp_all

lemma single_spaced_append_word:
  "v \<noteq> [] \<Longrightarrow> list_all (\<lambda>c. \<not> isSpace c) v \<Longrightarrow> u \<noteq> [] \<Longrightarrow> \<not> isSpace (hd u) \<Longrightarrow>
   single_spaced u \<Longrightarrow> single_spaced (v @ CHR '' '' # u)"
proof (induction v rule: single_spaced.induct)
  case 1
  then show ?case by simp
next
  case (2 c)
  then show ?case by (cases u) simp_all
next
  case (3 c d cs)
  then show ?case by simp
qed

lemma join_space_single_spaced:
  "list_all (\<lambda>v. v \<noteq> [] \<and> list_all (\<lambda>c. \<not> isSpace c) v) ws \<Longrightarrow>
   single_spaced (join_space ws)
   \<and> (ws \<noteq> [] \<longrightarrow> join_space ws \<noteq> [] \<and> \<not> isSpace (hd (join_space ws)))"
proof (induction ws rule: join_space.induct)
  case 1
  then show ?case by simp
next
  case (2 w)
  then show ?case by (cases w) (simp_all add: single_spaced_word)
next
  case (3 w v ws)
  then have "single_spaced (w @ CHR '' '' # join_space (v # ws))"
    by (intro single_spaced_append_word) simp_all
  moreover have "w \<noteq> []" "\<not> isSpace (hd w)"
    using 3 by (cases w; simp)+
  ultimately show ?case by simp
qed

text \<open>
  The result of \<open>simplified\<close> has no whitespace at either end, and inside only
  single spaces.
\<close>

lemma simplified_single_spaced:
  "single_spaced (simplified s)
   \<and> (simplified s \<noteq> [] \<longrightarrow> \<not> isSpace (hd (simplified s)))"
proof (cases "split_ws [] s = []")
  case True
  then show ?thesis by (simp add: simplified_def)
next
  case False
  then show ?thesis
    using join_space_single_spaced [of "split_ws [] s"] split_ws_words [of "[]" s]
    by (simp add: simplified_def)
qed

subsection \<open>Parsing a date\<close>

lemma readDateTime_loop_find:
  "readDateTime_loop L s formats r =
     (case find (\<lambda>f. isValid (toDateTime L s f)) formats of
        Some f \<Rightarrow> toDateTime L s f
      | None \<Rightarrow> (if formats = [] then r else toDateTime L s (last formats)))"
  by (induction formats arbitrary: r) (auto simp: Let_def split: option.splits)

lemma readDateTime_loop_valid_iff:
  "\<not> isValid r \<Longrightarrow>
   isValid (readDateTime_loop L s formats r)
     \<longleftrightarrow> (\<exists>f\<in>set formats. isValid (toDateTime L s f))"
  by (induction formats arbitrary: r) (auto simp: Let_def)

lemma readDateTime_loop_index:
  "i < length formats \<Longrightarrow> isValid (toDateTime L s (formats ! i)) \<Longrightarrow>
   \<forall>j<i. \<not> isValid (toDateTime L s (formats ! j)) \<Longrightarrow>
   readDateTime_loop L s formats r = toDateTime L s (formats ! i)"
proof (induction formats arbitrary: r i)
  case Nil
  then show ?case by simp
next
  case (Cons f formats)
  show ?case
  proof (cases i)
    case 0
    with Cons.prems show ?thesis by simp
  next
    case (Suc k)
    from Cons.prems(3) Suc have "\<not> isValid (toDateTime L s f)" by auto
    moreover have "\<forall>j<k. \<not> isValid (toDateTime L s (formats ! j))"
      using Cons.prems(3) Suc by auto
    ultimately show ?thesis
      using Cons.IH [of k] Cons.prems(1,2) Suc by (simp add: Let_def)
  qed
qed

text \<open>
  Claim C1. \<open>readDateTime\<close> hands the text to the system locale after
  \<open>simplified\<close> has trimmed it and collapsed its whitespace runs, tries the
  patterns of the catalogue in their order, and returns the date-time of the
  first pattern under which the locale reads a valid one. When the locale reads
  a valid date-time under no pattern of the catalogue, the result is invalid;
  this is the case of a text that is no date, and of the empty text and of a
  single space, which both reach the locale as the empty text. With an empty
  catalogue the result is the null date-time, which is invalid. The function has
  no failing branch.
\<close>

theorem readDateTime_first_valid:
  "(\<forall>i<length formats.
       isValid (toDateTime (systemLocale H) (simplified str) (formats ! i))
       \<and> (\<forall>j<i. \<not> isValid (toDateTime (systemLocale H) (simplified str) (formats ! j)))
       \<longrightarrow> readDateTime H formats str
             = toDateTime (systemLocale H) (simplified str) (formats ! i))
   \<and> (case first_valid (systemLocale H) (simplified str) formats of
         Some dateTime \<Rightarrow> readDateTime H formats str = dateTime \<and> isValid dateTime
       | None \<Rightarrow> \<not> isValid (readDateTime H formats str))
   \<and> ((\<forall>format\<in>set formats.
          \<not> isValid (toDateTime (systemLocale H) (simplified str) format))
        \<longrightarrow> \<not> isValid (readDateTime H formats str))
   \<and> single_spaced (simplified str)
   \<and> (simplified str \<noteq> [] \<longrightarrow> \<not> isSpace (hd (simplified str)))
   \<and> simplified [] = [] \<and> simplified '' '' = []
   \<and> readDateTime H [] str = NullDateTime \<and> \<not> isValid (readDateTime H [] str)"
proof -
  let ?L = "systemLocale H" and ?s = "simplified str"
  have loop: "readDateTime H formats str = readDateTime_loop ?L ?s formats NullDateTime"
    by (simp add: readDateTime_def)
  have A: "\<forall>i<length formats.
       isValid (toDateTime ?L ?s (formats ! i))
       \<and> (\<forall>j<i. \<not> isValid (toDateTime ?L ?s (formats ! j)))
       \<longrightarrow> readDateTime H formats str = toDateTime ?L ?s (formats ! i)"
    unfolding loop using readDateTime_loop_index [of _ formats ?L ?s NullDateTime] by blast
  have B: "(case first_valid ?L ?s formats of
         Some dateTime \<Rightarrow> readDateTime H formats str = dateTime \<and> isValid dateTime
       | None \<Rightarrow> \<not> isValid (readDateTime H formats str))"
  proof (cases "find (\<lambda>f. isValid (toDateTime ?L ?s f)) formats")
    case None
    then have "\<not> (\<exists>f\<in>set formats. isValid (toDateTime ?L ?s f))"
      by (auto simp: find_None_iff)
    then have "\<not> isValid (readDateTime H formats str)"
      unfolding loop by (simp add: readDateTime_loop_valid_iff)
    with None show ?thesis by (simp add: first_valid_def)
  next
    case (Some f)
    then have "isValid (toDateTime ?L ?s f)"
      by (auto simp: find_Some_iff)
    with Some show ?thesis
      unfolding loop by (simp add: first_valid_def readDateTime_loop_find)
  qed
  have C: "(\<forall>format\<in>set formats. \<not> isValid (toDateTime ?L ?s format))
        \<longrightarrow> \<not> isValid (readDateTime H formats str)"
    unfolding loop by (simp add: readDateTime_loop_valid_iff)
  have D: "readDateTime H [] str = NullDateTime"
    by (simp add: readDateTime_def)
  from A B C D simplified_single_spaced [of str] show ?thesis
    by (simp add: simplified_Nil simplified_space)
qed

theorem readDateTime_first_valid_witness:
  "readDateTime ex_host (catalogue_spec ex_host) ''1/15/2020   3:04 PM '' = DateTime 1579100640
   \<and> \<not> isValid (readDateTime ex_host (catalogue_spec ex_host) ''not a date'')
   \<and> \<not> isValid (readDateTime ex_host (catalogue_spec ex_host) '' '')
   \<and> \<not> isValid (readDateTime ex_host (catalogue_spec ex_host) [])"
proof -
  define cat where "cat = catalogue_spec ex_host"
  define date where "date = ''1/15/2020   3:04 PM ''"
  define garbage where "garbage = ''not a date''"
  define space where "space = '' ''"
  define attempt where
    "attempt = (\<lambda>str. toDateTime (systemLocale ex_host) (simplified str))"
  note defs = cat_def date_def garbage_def space_def attempt_def catalogue_spec_ex_host
  have len: "(3::nat) < length cat"
    unfolding defs by simp
  have hit: "isValid (attempt date (cat ! 3))" "attempt date (cat ! 3) = DateTime 1579100640"
    unfolding defs by code_simp+
  have miss: "\<not> isValid (attempt date (cat ! 0))" "\<not> isValid (attempt date (cat ! 1))"
    "\<not> isValid (attempt date (cat ! 2))"
    unfolding defs by code_simp+
  have before: "\<forall>j<3. \<not> isValid (attempt date (cat ! j))"
  proof (intro allI impI)
    fix j :: nat assume "j < 3"
    then have "j = 0 \<or> j = 1 \<or> j = 2" by arith
    with miss show "\<not> isValid (attempt date (cat ! j))" by blast
  qed
  have none: "\<forall>format\<in>set cat. \<not> isValid (attempt garbage format)"
    "\<forall>format\<in>set cat. \<not> isValid (attempt space format)"
    "\<forall>format\<in>set cat. \<not> isValid (attempt [] format)"
    unfolding defs by code_simp+
  have 1: "readDateTime ex_host cat date = DateTime 1579100640"
    using readDateTime_first_valid [of cat ex_host date] len hit before
    unfolding attempt_def by metis
  have 2: "\<not> isValid (readDateTime ex_host cat garbage)"
    using readDateTime_first_valid [of cat ex_host garbage] none(1)
    unfolding attempt_def by blast
  have 3: "\<not> isValid (readDateTime ex_host cat space)"
    using readDateTime_first_valid [of cat ex_host space] none(2)
    unfolding attempt_def by blast
  have 4: "\<not> isValid (readDateTime ex_host cat [])"
    using readDateTime_first_valid [of cat ex_host "[]"] none(3)
    unfolding attempt_def by blast
  from 1 2 3 4 show ?thesis
    unfolding cat_def date_def garbage_def space_def by blast
qed

subsection \<open>Place markers\<close>

text \<open>A text in front of the markers that has no \<^verbatim>\<open>%\<close> stays as it is.\<close>

lemma findArgEscapes_literal:
  "CHR ''%'' \<notin> set p \<Longrightarrow> findArgEscapes (p @ s) = map Lit p @ findArgEscapes s"
  by (induction p) auto

lemma min_escape_literal: "min_escape (map Lit p @ ts) = min_escape ts"
  by (induction p) simp_all

lemma replace_token_literal: "concat (map (replace_token m a l \<circ> Lit) p) = p"
  by (induction p) simp_all

lemma replaceArgEscapes_literal:
  assumes "CHR ''%'' \<notin> set p"
  shows "replaceArgEscapes (p @ s) a l = p @ replaceArgEscapes s a l"
  using assms
  by (simp add: replaceArgEscapes_def findArgEscapes_literal min_escape_literal
      replace_token_literal split: option.splits)

lemma arg_str_literal:
  "CHR ''%'' \<notin> set p \<Longrightarrow> arg_str (p @ s) a = p @ arg_str s a"
  by (simp add: arg_str_def replaceArgEscapes_literal)

lemma arg_int_literal:
  "CHR ''%'' \<notin> set p \<Longrightarrow> arg_int H (p @ s) a = p @ arg_int H s a"
  by (simp add: arg_int_def replaceArgEscapes_literal)

lemmas arg_eval = arg_str_def arg_int_def arg_int_padded_def replaceArgEscapes_def
  parse_escape_def digitValue_def

lemma arg_components:
  "arg_str ''%1 d'' a = a @ '' d''"
  "arg_str ''%1 h'' a = a @ '' h''"
  "arg_str ''%1 m'' a = a @ '' m''"
  "arg_int_padded H '' %1 h'' n 2 = '' '' @ zero_padded 2 n @ '' h''"
  "arg_int_padded H '' %1 m'' n 2 = '' '' @ zero_padded 2 n @ '' m''"
  by (simp_all add: arg_eval)

lemma arg_elapsed_short:
  assumes "CHR ''%'' \<notin> set (toString (defaultLocale H) n)"
  shows "arg_str (arg_int H ''%L1 %2'' n) w = toString (defaultLocale H) n @ '' '' @ w"
proof -
  have "arg_int H ''%L1 %2'' n = toString (defaultLocale H) n @ '' %2''"
    by (simp add: arg_eval)
  moreover have "arg_str '' %2'' w = '' '' @ w"
    by (simp add: arg_eval)
  ultimately show ?thesis
    using assms by (simp add: arg_str_literal)
qed

lemma arg_elapsed_long:
  assumes m: "CHR ''%'' \<notin> set (toString (defaultLocale H) m)"
    and w: "CHR ''%'' \<notin> set w"
    and n: "CHR ''%'' \<notin> set (toString (defaultLocale H) n)"
  shows "arg_str (arg_int H (arg_str (arg_int H ''%L1 %2 %L3 %4'' m) w) n) v
         = toString (defaultLocale H) m @ '' '' @ w @ '' ''
           @ toString (defaultLocale H) n @ '' '' @ v"
proof -
  let ?M = "toString (defaultLocale H) m" and ?N = "toString (defaultLocale H) n"
  have 1: "arg_int H ''%L1 %2 %L3 %4'' m = ?M @ '' %2 %L3 %4''"
    by (simp add: arg_eval)
  have 2: "arg_str '' %2 %L3 %4'' w = ('' '' @ w) @ '' %L3 %4''"
    by (simp add: arg_eval)
  have 3: "arg_int H '' %L3 %4'' n = ('' '' @ ?N) @ '' %4''"
    by (simp add: arg_eval)
  have 4: "arg_str '' %4'' v = '' '' @ v"
    by (simp add: arg_eval)
  have "arg_str (?M @ '' %2 %L3 %4'') w = (?M @ '' '' @ w) @ '' %L3 %4''"
    using m by (simp add: arg_str_literal 2)
  moreover have "arg_int H ((?M @ '' '' @ w) @ '' %L3 %4'') n
                 = (?M @ '' '' @ w @ '' '' @ ?N) @ '' %4''"
    using m w by (subst arg_int_literal) (simp_all add: 3)
  moreover have "arg_str ((?M @ '' '' @ w @ '' '' @ ?N) @ '' %4'') v
                 = ?M @ '' '' @ w @ '' '' @ ?N @ '' '' @ v"
    using m w n by (subst arg_str_literal) (simp_all add: 4)
  ultimately show ?thesis by (simp add: 1)
qed

subsection \<open>Numbers as text\<close>

lemma digit_char_0: "digit_char 0 = CHR ''0''"
  by (simp add: digit_char_def)

lemma digit_char_no_percent: "d < 10 \<Longrightarrow> digit_char d \<noteq> CHR ''%''"
proof -
  assume "d < 10"
  then have "digit_char d \<in> set ''0123456789''"
    unfolding digit_char_def by (intro nth_mem) simp
  then show ?thesis by auto
qed

lemma digits_no_percent: "CHR ''%'' \<notin> set (digits n)"
proof (induction n rule: digits.induct)
  case (1 n)
  show ?case
  proof (cases "n < 10")
    case True
    then show ?thesis
      using digit_char_no_percent [of n] by (subst digits.simps) auto
  next
    case False
    then show ?thesis
      using 1 digit_char_no_percent [of "n mod 10"] by (subst digits.simps) auto
  qed
qed

lemma c_number_no_percent: "CHR ''%'' \<notin> set (c_number a)"
  by (simp add: c_number_def digits_no_percent)

lemma digits_one: "n < 10 \<Longrightarrow> digits n = [digit_char n]"
  by (simp add: digits.simps)

lemma digits_two:
  "10 \<le> n \<Longrightarrow> n < 100 \<Longrightarrow> digits n = [digit_char (n div 10), digit_char (n mod 10)]"
  by (subst digits.simps) (simp add: digits_one)

lemma zero_padded_nonneg:
  "0 \<le> a \<Longrightarrow>
   zero_padded w a = replicate (w - length (digits (nat a))) CHR ''0'' @ digits (nat a)"
  by (simp add: zero_padded_def Let_def)

text \<open>A field of width two holds exactly the two digits of a number below 100.\<close>

lemma zero_padded_two_digits:
  assumes "0 \<le> a" "a < 100"
  shows "zero_padded 2 a = [digit_char (nat (a div 10)), digit_char (nat (a mod 10))]"
proof (cases "a < 10")
  case True
  with assms have "digits (nat a) = [digit_char (nat a)]"
    by (simp add: digits_one)
  moreover have "a div 10 = 0" "a mod 10 = a"
    using True assms by simp_all
  ultimately show ?thesis
    using assms by (simp add: zero_padded_nonneg digit_char_0)
next
  case False
  have "nat a div 10 = nat (a div 10)" "nat a mod 10 = nat (a mod 10)"
    using assms by (simp_all add: nat_div_distrib nat_mod_distrib)
  moreover have "10 \<le> nat a" "nat a < 100"
    using False assms by simp_all
  ultimately have "digits (nat a) = [digit_char (nat (a div 10)), digit_char (nat (a mod 10))]"
    using digits_two [of "nat a"] by simp
  then show ?thesis
    using assms by (simp add: zero_padded_nonneg)
qed

lemma int32_id: "- 2147483648 \<le> x \<Longrightarrow> x < 2147483648 \<Longrightarrow> int32 x = x"
  by (simp add: int32_def signed_take_bit_int_eq_self)

lemma sdiv_nonneg: "0 \<le> a \<Longrightarrow> 0 < b \<Longrightarrow> a sdiv b = a div (b::int)"
  by (simp add: signed_divide_int_def sgn_if)

subsection \<open>Elapsed time\<close>

text \<open>
  Claim C9, as amended. Without a translation installed, and with a locale
  whose numbers contain no \<^verbatim>\<open>%\<close>, \<open>formatElapsed\<close> renders every span of at least
  0 and of fewer than \<open>2 ^ 31\<close> whole seconds (2147483648000 ms) as the
  specification says: the milliseconds are truncated to whole seconds \<open>s\<close>;
  below 60 the text is \<open>s\<close> and \<^verbatim>\<open>second\<close> or \<^verbatim>\<open>seconds\<close>, otherwise the minutes
  \<open>s div 60\<close> and the seconds \<open>s mod 60\<close>, each with its unit in the singular
  exactly at 1.
\<close>

theorem formatElapsed_text:
  assumes tr: "tr H = (\<lambda>s. s)"
    and shaped: "\<forall>n. CHR ''%'' \<notin> set (toString (defaultLocale H) n)"
    and range: "0 \<le> elapsed" "elapsed < 2147483648000"
  shows "formatElapsed H elapsed = formatElapsed_spec H elapsed"
proof -
  define s where "s = elapsed div 1000"
  have s: "0 \<le> s" "s < 2147483648"
    using range by (simp_all add: s_def)
  have secs: "int32 (elapsed sdiv 1000) = s"
    using range s by (simp add: sdiv_nonneg int32_id s_def)
  show ?thesis
  proof (cases "s < 60")
    case True
    then show ?thesis
      using shaped
      by (simp add: formatElapsed_def formatElapsed_spec_def secs tr arg_elapsed_short
          flip: s_def)
  next
    case False
    then have mins: "s sdiv 60 = s div 60" and rest: "s - s div 60 * 60 = s mod 60"
      using s by (simp_all add: sdiv_nonneg minus_div_mult_eq_mod)
    have words: "CHR ''%'' \<notin> set (if s div 60 = 1 then ''minute'' else ''minutes'')"
      by simp
    show ?thesis
      using False shaped words
      by (simp add: formatElapsed_def formatElapsed_spec_def secs tr mins rest Let_def
          arg_elapsed_long flip: s_def)
  qed
qed

theorem formatElapsed_text_witness:
  "formatElapsed ex_host 1000 = ''1 second''
   \<and> formatElapsed ex_host 61000 = ''1 minute 1 second''
   \<and> formatElapsed ex_host 125000 = ''2 minutes 5 seconds''
   \<and> formatElapsed ex_host 999 = ''0 seconds''"
proof -
  have tr: "tr ex_host = (\<lambda>s. s)"
    by (simp add: ex_host_def)
  have shaped: "\<forall>n. CHR ''%'' \<notin> set (toString (defaultLocale ex_host) n)"
    by (simp add: ex_host_def ex_locale_def c_number_no_percent)
  have spec: "formatElapsed_spec ex_host 1000 = ''1 second''"
    "formatElapsed_spec ex_host 61000 = ''1 minute 1 second''"
    "formatElapsed_spec ex_host 125000 = ''2 minutes 5 seconds''"
    "formatElapsed_spec ex_host 999 = ''0 seconds''"
    by code_simp+
  show ?thesis
    using formatElapsed_text [OF tr shaped, of 1000] formatElapsed_text [OF tr shaped, of 61000]
      formatElapsed_text [OF tr shaped, of 125000] formatElapsed_text [OF tr shaped, of 999]
    by (simp add: spec)
qed

text \<open>
  At \<open>2 ^ 31\<close> seconds the claim as stated fails: the seconds no longer fit the
  \<^verbatim>\<open>int\<close>, whose value is then \<open>- 2 ^ 31\<close>, and the text is not the one the
  specification describes.
\<close>

theorem formatElapsed_wraps:
  "formatElapsed ex_host 2147483648000 = ''-2147483648 seconds''
   \<and> formatElapsed_spec ex_host 2147483648000 = ''35791394 minutes 8 seconds''"
proof -
  have wrap: "int32 2147483648 = - 2147483648"
    by (simp add: int32_def signed_take_bit_eq_take_bit_shift take_bit_eq_mod)
  have secs: "(2147483648000::int) sdiv 1000 = 2147483648"
    by (simp add: signed_divide_int_def)
  have number: "c_number (- 2147483648) = ''-2147483648''"
    by (simp add: c_number_def digits.simps digit_char_def)
  have shaped: "CHR ''%'' \<notin> set (toString (defaultLocale ex_host) (- 2147483648))"
    by (simp add: ex_host_def ex_locale_def number)
  have "formatElapsed ex_host 2147483648000
        = arg_str (arg_int ex_host ''%L1 %2'' (- 2147483648)) ''seconds''"
    by (simp add: formatElapsed_def wrap secs ex_host_def)
  also have "\<dots> = ''-2147483648 seconds''"
    using shaped by (simp add: arg_elapsed_short) (simp add: ex_host_def ex_locale_def number)
  finally have code: "formatElapsed ex_host 2147483648000 = ''-2147483648 seconds''" .
  have "formatElapsed_spec ex_host 2147483648000 = ''35791394 minutes 8 seconds''"
    by (simp add: formatElapsed_spec_def ex_host_def ex_locale_def c_number_def digits.simps
        digit_char_def)
  with code show ?thesis by simp
qed

subsection \<open>Duration formatters\<close>

lemma roundToInt_bounds: "0 \<le> x \<Longrightarrow> x \<le> 60 \<Longrightarrow> 0 \<le> roundToInt x \<and> roundToInt x \<le> 60"
  unfolding roundToInt_def by (simp add: floor_le_iff le_floor_iff)

text \<open>
  With a rounding that is monotone and leaves 0, 1 and 60 as they are, as the
  rounding to the nearest \<^verbatim>\<open>double\<close> does, the minutes lie between 0 and 60.
\<close>

lemma roundToInt_minutes:
  assumes mono: "\<forall>x y. x \<le> y \<longrightarrow> to_double H x \<le> to_double H y"
    and fixed: "to_double H 0 = 0" "to_double H 1 = 1" "to_double H 60 = 60"
  shows "0 \<le> roundToInt (to_double H (to_double H (time - real_of_int \<lfloor>time\<rfloor>) * 60))
   \<and> roundToInt (to_double H (to_double H (time - real_of_int \<lfloor>time\<rfloor>) * 60)) \<le> 60"
proof -
  define fraction where "fraction = to_double H (time - real_of_int \<lfloor>time\<rfloor>)"
  have "0 \<le> time - real_of_int \<lfloor>time\<rfloor>" "time - real_of_int \<lfloor>time\<rfloor> \<le> 1"
    by linarith+
  then have "to_double H 0 \<le> fraction" "fraction \<le> to_double H 1"
    unfolding fraction_def using mono by blast+
  then have "0 \<le> fraction * 60" "fraction * 60 \<le> 60"
    using fixed by simp_all
  then have "to_double H 0 \<le> to_double H (fraction * 60)"
    "to_double H (fraction * 60) \<le> to_double H 60"
    using mono by blast+
  then have "0 \<le> to_double H (fraction * 60)" "to_double H (fraction * 60) \<le> 60"
    using fixed by simp_all
  then show ?thesis
    unfolding fraction_def by (rule roundToInt_bounds)
qed

text \<open>
  The minutes follow the rounded product, not the exact one: where the product
  of the fraction and 60 rounds to the \<^verbatim>\<open>double\<close> 34.5, as it does for the
  \<^verbatim>\<open>double\<close> nearest to 1.575, the minutes are 35.
\<close>

lemma roundToInt_rounded_product:
  "to_double H (to_double H (time - real_of_int \<lfloor>time\<rfloor>) * 60) = 69 / 2 \<Longrightarrow>
   roundToInt (to_double H (to_double H (time - real_of_int \<lfloor>time\<rfloor>) * 60)) = 35"
proof -
  assume product: "to_double H (to_double H (time - real_of_int \<lfloor>time\<rfloor>) * 60) = 69 / 2"
  have "roundToInt (69 / 2) = 35"
    by (simp add: roundToInt_def)
  then show ?thesis
    by (simp only: product)
qed

lemma days_hours_nonneg:
  assumes "0 \<le> time"
  shows "static_cast_int time sdiv 24 = \<lfloor>time\<rfloor> div 24"
    and "static_cast_int time - (static_cast_int time sdiv 24) * 24 = \<lfloor>time\<rfloor> mod 24"
proof -
  have f: "0 \<le> \<lfloor>time\<rfloor>"
    using assms by simp
  show "static_cast_int time sdiv 24 = \<lfloor>time\<rfloor> div 24"
    using assms f by (simp add: static_cast_int_def sdiv_nonneg)
  then show "static_cast_int time - (static_cast_int time sdiv 24) * 24 = \<lfloor>time\<rfloor> mod 24"
    using assms by (simp add: static_cast_int_def minus_div_mult_eq_mod)
qed

text \<open>Within the range of the conversion, the truncated value fits an \<^verbatim>\<open>int\<close>.\<close>

lemma static_cast_int_fits:
  assumes "- 2147483649 < time" "time < 2147483648"
  shows "- 2147483648 \<le> static_cast_int time \<and> static_cast_int time \<le> 2147483647"
proof (cases "0 \<le> time")
  case True
  then have "0 \<le> \<lfloor>time\<rfloor>" "\<lfloor>time\<rfloor> < 2147483648"
    using assms(2) by (simp_all add: floor_less_iff)
  with True show ?thesis
    by (simp add: static_cast_int_def)
next
  case False
  then have "\<lceil>time\<rceil> \<le> 0" "- 2147483649 < \<lceil>time\<rceil>"
    using assms(1) by (simp_all add: ceiling_le_iff less_ceiling_iff)
  with False show ?thesis
    by (simp add: static_cast_int_def)
qed

lemma formatMinutesHoursDaysLong_text:
  "tr H = (\<lambda>s. s) \<Longrightarrow>
   formatMinutesHoursDaysLong H time =
     long_duration_text H (static_cast_int time sdiv 24)
       (static_cast_int time - (static_cast_int time sdiv 24) * 24)
       (roundToInt (to_double H (to_double H (time - real_of_int \<lfloor>time\<rfloor>) * 60)))"
  by (simp add: formatMinutesHoursDaysLong_def long_duration_text_def Let_def arg_components)

text \<open>
  Claim C5. For every hours value that the conversion to \<^verbatim>\<open>int\<close> is defined for
  (strictly between \<open>- 2 ^ 31 - 1\<close> and \<open>2 ^ 31\<close>), and without a translation
  installed, the long days/hours/minutes formatter writes the days and the
  hours only when they are positive, days first, and always the minutes; the
  first component written is rendered by the locale, every later one as a
  zero-padded field of width two. For an hours value of at least 0 the days are
  \<open>\<lfloor>time\<rfloor> div 24\<close> and the hours \<open>\<lfloor>time\<rfloor> mod 24\<close>, so a component is left out
  exactly when it is zero, and the padded field of the hours is exactly two
  digits. The minutes are computed in \<^verbatim>\<open>double\<close> arithmetic; with a rounding that
  is monotone and leaves 0, 1 and 60 as they are, they lie between 0 and 60 and
  their padded field is exactly two digits. The values 25.25, 1.25 and 0.25,
  on which \<^verbatim>\<open>double\<close> arithmetic is exact, give \<^verbatim>\<open>1 d 01 h 15 m\<close>, \<^verbatim>\<open>1 h 15 m\<close> and
  \<^verbatim>\<open>15 m\<close>.
\<close>

theorem formatMinutesHoursDaysLong_components:
  assumes tr: "tr H = (\<lambda>s. s)"
    and range: "- 2147483649 < time" "time < 2147483648"
  shows "formatMinutesHoursDaysLong H time =
     long_duration_text H (static_cast_int time sdiv 24)
       (static_cast_int time - (static_cast_int time sdiv 24) * 24)
       (roundToInt (to_double H (to_double H (time - real_of_int \<lfloor>time\<rfloor>) * 60)))
   \<and> - 2147483648 \<le> static_cast_int time \<and> static_cast_int time \<le> 2147483647
   \<and> (0 \<le> time \<longrightarrow>
        static_cast_int time sdiv 24 = \<lfloor>time\<rfloor> div 24
        \<and> static_cast_int time - (static_cast_int time sdiv 24) * 24 = \<lfloor>time\<rfloor> mod 24
        \<and> 0 \<le> \<lfloor>time\<rfloor> div 24 \<and> 0 \<le> \<lfloor>time\<rfloor> mod 24 \<and> \<lfloor>time\<rfloor> mod 24 < 24
        \<and> zero_padded 2 (\<lfloor>time\<rfloor> mod 24)
            = [digit_char (nat (\<lfloor>time\<rfloor> mod 24 div 10)),
               digit_char (nat (\<lfloor>time\<rfloor> mod 24 mod 10))])
   \<and> ((\<forall>x y. x \<le> y \<longrightarrow> to_double H x \<le> to_double H y)
        \<and> to_double H 0 = 0 \<and> to_double H 1 = 1 \<and> to_double H 60 = 60 \<longrightarrow>
        (let minutes =
               roundToInt (to_double H (to_double H (time - real_of_int \<lfloor>time\<rfloor>) * 60))
         in 0 \<le> minutes \<and> minutes \<le> 60
            \<and> zero_padded 2 minutes
                = [digit_char (nat (minutes div 10)), digit_char (nat (minutes mod 10))]))"
proof -
  let ?minutes = "roundToInt (to_double H (to_double H (time - real_of_int \<lfloor>time\<rfloor>) * 60))"
  have days: "0 \<le> time \<Longrightarrow> 0 \<le> \<lfloor>time\<rfloor> div 24"
    by (simp add: pos_imp_zdiv_nonneg_iff)
  have hours: "zero_padded 2 (\<lfloor>time\<rfloor> mod 24)
            = [digit_char (nat (\<lfloor>time\<rfloor> mod 24 div 10)),
               digit_char (nat (\<lfloor>time\<rfloor> mod 24 mod 10))]"
    by (rule zero_padded_two_digits) simp_all
  have minutes: "0 \<le> ?minutes \<and> ?minutes \<le> 60
      \<and> zero_padded 2 ?minutes
          = [digit_char (nat (?minutes div 10)), digit_char (nat (?minutes mod 10))]"
    if "(\<forall>x y. x \<le> y \<longrightarrow> to_double H x \<le> to_double H y)
        \<and> to_double H 0 = 0 \<and> to_double H 1 = 1 \<and> to_double H 60 = 60"
  proof -
    have b: "0 \<le> ?minutes \<and> ?minutes \<le> 60"
      using that roundToInt_minutes [of H time] by blast
    then have "zero_padded 2 ?minutes
          = [digit_char (nat (?minutes div 10)), digit_char (nat (?minutes mod 10))]"
      by (intro zero_padded_two_digits) simp_all
    with b show ?thesis by blast
  qed
  show ?thesis
    using formatMinutesHoursDaysLong_text [OF tr, of time] static_cast_int_fits [OF range]
      days_hours_nonneg [of time] days hours minutes
    by (simp add: Let_def)
qed

theorem formatMinutesHoursDaysLong_components_witness:
  "formatMinutesHoursDaysLong ex_host (101 / 4) = ''1 d 01 h 15 m''
   \<and> formatMinutesHoursDaysLong ex_host (5 / 4) = ''1 h 15 m''
   \<and> formatMinutesHoursDaysLong ex_host (1 / 4) = ''15 m''
   \<and> static_cast_int (101 / 4) \<le> 2147483647
   \<and> zero_padded 2 (\<lfloor>101 / 4 :: real\<rfloor> mod 24)
       = [digit_char (nat (\<lfloor>101 / 4 :: real\<rfloor> mod 24 div 10)),
          digit_char (nat (\<lfloor>101 / 4 :: real\<rfloor> mod 24 mod 10))]
   \<and> roundToInt (to_double ex_host (to_double ex_host (101 / 4 - real_of_int \<lfloor>101 / 4 :: real\<rfloor>) * 60))
       \<le> 60"
proof -
  have tr: "tr ex_host = (\<lambda>s. s)"
    by (simp add: ex_host_def)
  have rounding: "(\<forall>x y. x \<le> y \<longrightarrow> to_double ex_host x \<le> to_double ex_host y)
      \<and> to_double ex_host 0 = 0 \<and> to_double ex_host 1 = 1 \<and> to_double ex_host 60 = 60"
    by (simp add: ex_host_def)
  have nonneg: "(0::real) \<le> 101 / 4"
    by simp
  have r1: "- 2147483649 < (101 / 4 :: real)" "(101 / 4 :: real) < 2147483648"
    and r2: "- 2147483649 < (5 / 4 :: real)" "(5 / 4 :: real) < 2147483648"
    and r3: "- 2147483649 < (1 / 4 :: real)" "(1 / 4 :: real) < 2147483648"
    by simp_all
  have a: "long_duration_text ex_host (static_cast_int (101 / 4) sdiv 24)
       (static_cast_int (101 / 4) - (static_cast_int (101 / 4) sdiv 24) * 24)
       (roundToInt (to_double ex_host
          (to_double ex_host (101 / 4 - real_of_int \<lfloor>101 / 4 :: real\<rfloor>) * 60)))
     = ''1 d 01 h 15 m''"
    by code_simp
  have b: "long_duration_text ex_host (static_cast_int (5 / 4) sdiv 24)
       (static_cast_int (5 / 4) - (static_cast_int (5 / 4) sdiv 24) * 24)
       (roundToInt (to_double ex_host
          (to_double ex_host (5 / 4 - real_of_int \<lfloor>5 / 4 :: real\<rfloor>) * 60)))
     = ''1 h 15 m''"
    by code_simp
  have c: "long_duration_text ex_host (static_cast_int (1 / 4) sdiv 24)
       (static_cast_int (1 / 4) - (static_cast_int (1 / 4) sdiv 24) * 24)
       (roundToInt (to_double ex_host
          (to_double ex_host (1 / 4 - real_of_int \<lfloor>1 / 4 :: real\<rfloor>) * 60)))
     = ''15 m''"
    by code_simp
  show ?thesis
    using formatMinutesHoursDaysLong_components [OF tr r1] rounding nonneg
      formatMinutesHoursDaysLong_components [OF tr r2]
      formatMinutesHoursDaysLong_components [OF tr r3]
    unfolding a b c Let_def by blast
qed

text \<open>
  Claim C3 fails on the code. \<open>formatMinutesHours\<close> and \<open>formatMinutesHoursLong\<close>
  carry 60 minutes into the hours; \<open>formatMinutesHoursDays\<close> and
  \<open>formatMinutesHoursDaysLong\<close> have no such step. At 1.9999 hours, and at
  511/256 hours, where every operation on the \<^verbatim>\<open>double\<close> is exact, the minutes
  round to 60 and the two formatters with days print a minute field of 60 after
  an hour that has not been incremented.
\<close>

theorem formatMinutesHoursDays_no_carry:
  "formatMinutesHoursDays ex_host (19999 / 10000) = ''0:01:60''
   \<and> formatMinutesHoursDaysLong ex_host (19999 / 10000) = ''1 h 60 m''
   \<and> formatMinutesHoursDays ex_host (511 / 256) = ''0:01:60''
   \<and> formatMinutesHoursDaysLong ex_host (511 / 256) = ''1 h 60 m''
   \<and> formatMinutesHours ex_host (19999 / 10000) = ''2:00''
   \<and> formatMinutesHoursLong ex_host (19999 / 10000) = ''2 h 00 m''"
  by code_simp

subsection \<open>Coordinate validator\<close>

text \<open>
  Claim C6. \<open>checkCoordinates\<close> returns whether the position that the coordinate
  parser reads from the text is valid. For a valid position the message slot
  receives \<^verbatim>\<open>Coordinates are valid: \<close> followed by the canonical rendering when
  that differs from the text (the translated pattern with the rendering in place
  of its marker), and \<^verbatim>\<open>Coordinates are valid.\<close> when it is the text itself; for
  an invalid one it receives the translated \<^verbatim>\<open>Coordinates are not valid.\<close> in
  error styling. The function has no failing branch.
\<close>

theorem checkCoordinates_message:
  "fst (checkCoordinates H message text) = posIsValid H (fromAnyFormat H text)
   \<and> (posIsValid H (fromAnyFormat H text) \<and> coords H (fromAnyFormat H text) \<noteq> text
        \<longrightarrow> snd (checkCoordinates H message text)
            = arg_str (tr H ''Coordinates are valid: %1'') (coords H (fromAnyFormat H text)))
   \<and> (posIsValid H (fromAnyFormat H text) \<and> coords H (fromAnyFormat H text) = text
        \<longrightarrow> snd (checkCoordinates H message text) = tr H ''Coordinates are valid.'')
   \<and> (\<not> posIsValid H (fromAnyFormat H text)
        \<longrightarrow> snd (checkCoordinates H message text)
            = errorMessage H (tr H ''Coordinates are not valid.''))
   \<and> arg_str ''Coordinates are valid: %1'' canonical = ''Coordinates are valid: '' @ canonical"
  by (simp add: checkCoordinates_def Let_def arg_eval)

theorem checkCoordinates_message_witness:
  "checkCoordinates ex_host [] ''N48 07.2 E11 34.4''
     = (True, ''Coordinates are valid: N 48 7.2 E 11 34.4'')
   \<and> checkCoordinates ex_host [] ''N 48 7.2 E 11 34.4'' = (True, ''Coordinates are valid.'')
   \<and> checkCoordinates ex_host [] ''not coords'' = (False, ''<b>Coordinates are not valid.</b>'')"
proof -
  define t1 where "t1 = ''N48 07.2 E11 34.4''"
  define t2 where "t2 = ''N 48 7.2 E 11 34.4''"
  define t3 where "t3 = ''not coords''"
  note ex = ex_host_def ex_fromAnyFormat_def t1_def t2_def t3_def
  have v: "posIsValid ex_host (fromAnyFormat ex_host t1)"
    "posIsValid ex_host (fromAnyFormat ex_host t2)"
    "\<not> posIsValid ex_host (fromAnyFormat ex_host t3)"
    by (simp_all add: ex)
  have c: "coords ex_host (fromAnyFormat ex_host t1) = t2"
    "coords ex_host (fromAnyFormat ex_host t2) = t2"
    by (simp_all add: ex)
  have ne: "t2 \<noteq> t1"
    by (simp add: ex)
  have tr: "tr ex_host = (\<lambda>s. s)" "errorMessage ex_host = (\<lambda>s. ''<b>'' @ s @ ''</b>'')"
    by (simp_all add: ex_host_def)
  have 1: "checkCoordinates ex_host [] t1 = (True, ''Coordinates are valid: '' @ t2)"
    using checkCoordinates_message [of ex_host "[]" t1 t2] v(1) c(1) ne
    by (simp add: tr prod_eq_iff)
  have 2: "checkCoordinates ex_host [] t2 = (True, ''Coordinates are valid.'')"
    using checkCoordinates_message [of ex_host "[]" t2 t2] v(2) c(2)
    by (simp add: tr prod_eq_iff)
  have 3: "checkCoordinates ex_host [] t3 = (False, ''<b>Coordinates are not valid.</b>'')"
    using checkCoordinates_message [of ex_host "[]" t3 t2] v(3)
    by (simp add: tr prod_eq_iff)
  from 1 2 3 show ?thesis
    by (simp add: t1_def t2_def t3_def)
qed

subsection \<open>The long date without the zone label\<close>

lemma contains_middle: "sub \<noteq> [] \<Longrightarrow> contains (zs @ sub @ r) sub"
proof (induction zs)
  case Nil
  then show ?case by (cases sub) simp_all
next
  case (Cons z zs)
  then show ?case by simp
qed

lemma endsWith_suffix: "endsWith s e \<longleftrightarrow> suffix e s"
  by (simp add: endsWith_def suffix_to_prefix)

lemma replace_from_self: "bef \<noteq> [] \<Longrightarrow> replace_from bef aft bef = aft"
  by (cases bef) simp_all

lemma replace_from_trailing:
  assumes "bef \<noteq> []" "\<not> contains (body @ butlast bef) bef"
  shows "replace_from bef aft (body @ bef) = body @ aft"
  using assms
proof (induction body)
  case Nil
  then show ?case by (simp add: replace_from_self)
next
  case (Cons x xs)
  have no_prefix: "\<not> prefix bef (x # xs @ butlast bef)" and rest: "\<not> contains (xs @ butlast bef) bef"
    using Cons.prems(2) by simp_all
  have "\<not> prefix bef (x # xs @ bef)"
  proof
    assume "prefix bef (x # xs @ bef)"
    then have "prefix bef ((x # xs @ butlast bef) @ [last bef])"
      using Cons.prems(1) by simp
    then have "bef = (x # xs @ butlast bef) @ [last bef]"
      using no_prefix unfolding prefix_snoc by blast
    then have "length bef = length ((x # xs @ butlast bef) @ [last bef])"
      by simp
    then show False by simp
  qed
  then show ?case
    using Cons.IH [OF Cons.prems(1) rest] by simp
qed

lemma strip_trailing_append: "strip_trailing (body @ label) label = body"
  by (simp add: strip_trailing_def endsWith_def)

text \<open>
  Claim C8, as amended. For a timestamp \<open>timeT > 0\<close> whose date-time the
  platform reports as valid and not null, \<open>formatDateLong\<close> returns the long
  rendering of the default locale with every occurrence of the translated text
  \<^verbatim>\<open>UTC\<close> removed, wherever it stands. When the rendering ends in that label and
  the label occurs nowhere else in it, the result is the rendering without the
  trailing label, and the result does not end with the label.
\<close>

theorem formatDateLong_removes_label:
  assumes "timeT > 0" "isValid (setTime_t H (take_bit 32 timeT))"
    "\<not> isNull (setTime_t H (take_bit 32 timeT))"
  shows "formatDateLong H timeT =
           replace (dateTimeToString H (setTime_t H (take_bit 32 timeT)) DefaultLocaleLongDate)
             (tr H ''UTC'') []
   \<and> (\<forall>body. dateTimeToString H (setTime_t H (take_bit 32 timeT)) DefaultLocaleLongDate
                = body @ tr H ''UTC''
              \<and> tr H ''UTC'' \<noteq> []
              \<and> \<not> contains (body @ butlast (tr H ''UTC'')) (tr H ''UTC'')
        \<longrightarrow> formatDateLong H timeT = body
            \<and> formatDateLong H timeT
                = strip_trailing
                    (dateTimeToString H (setTime_t H (take_bit 32 timeT)) DefaultLocaleLongDate)
                    (tr H ''UTC'')
            \<and> \<not> endsWith (formatDateLong H timeT) (tr H ''UTC''))"
proof -
  let ?r = "dateTimeToString H (setTime_t H (take_bit 32 timeT)) DefaultLocaleLongDate"
  let ?l = "tr H ''UTC''"
  have eq: "formatDateLong H timeT = replace ?r ?l []"
    using assms by (simp add: formatDateLong_def Let_def)
  have "formatDateLong H timeT = body \<and> formatDateLong H timeT = strip_trailing ?r ?l
        \<and> \<not> endsWith (formatDateLong H timeT) ?l"
    if r: "?r = body @ ?l" and l: "?l \<noteq> []" and only: "\<not> contains (body @ butlast ?l) ?l"
    for body
  proof -
    have b: "formatDateLong H timeT = body"
      using replace_from_trailing [OF l only, of "[]"] l
      by (simp add: eq r replace_def)
    have "\<not> suffix ?l body"
    proof
      assume "suffix ?l body"
      then obtain zs where "body = zs @ ?l" by (auto simp: suffix_def)
      then have "contains (body @ butlast ?l) ?l"
        using contains_middle [OF l, of zs "butlast ?l"] by simp
      with only show False by simp
    qed
    with b show ?thesis
      by (simp add: r strip_trailing_append endsWith_suffix)
  qed
  with eq show ?thesis by blast
qed

theorem formatDateLong_removes_label_witness:
  "formatDateLong ex_host 1579100640 = ''Wednesday, January 15, 2020 3:04:00 PM ''
   \<and> \<not> endsWith (formatDateLong ex_host 1579100640) ''UTC''"
proof -
  define body where "body = ''Wednesday, January 15, 2020 3:04:00 PM ''"
  define label where "label = ''UTC''"
  have stamp: "take_bit 32 (1579100640::int) = 1579100640"
    by (simp add: take_bit_eq_mod)
  have pos: "(1579100640::int) > 0"
    by simp
  have ok: "isValid (setTime_t ex_host (take_bit 32 1579100640))"
    "\<not> isNull (setTime_t ex_host (take_bit 32 1579100640))"
    by (simp_all add: stamp ex_host_def)
  have label: "tr ex_host ''UTC'' = label"
    by (simp add: ex_host_def label_def)
  have rendering:
    "dateTimeToString ex_host (setTime_t ex_host (take_bit 32 1579100640)) DefaultLocaleLongDate
       = body @ label"
    by (simp add: stamp ex_host_def ex_dateTimeToString_def body_def label_def)
  have ne: "label \<noteq> []"
    by (simp add: label_def)
  have only: "\<not> contains (body @ butlast label) label"
    unfolding body_def label_def by code_simp
  have "formatDateLong ex_host 1579100640 = body
        \<and> \<not> endsWith (formatDateLong ex_host 1579100640) label"
    using formatDateLong_removes_label [OF pos ok] rendering ne only
    unfolding label by blast
  then show ?thesis
    unfolding body_def label_def .
qed

text \<open>
  The claim as stated fails for a rendering that carries the label elsewhere:
  the label is removed from the middle, although there is no trailing label to
  strip.
\<close>

theorem formatDateLong_inner_label:
  "formatDateLong zone_first_host 1579100640 = ''2020-01-15  15:04:00''
   \<and> strip_trailing
        (dateTimeToString zone_first_host (setTime_t zone_first_host (take_bit 32 1579100640))
           DefaultLocaleLongDate)
        (tr zone_first_host ''UTC'')
       = ''2020-01-15 UTC 15:04:00''"
proof -
  have stamp: "take_bit 32 (1579100640::int) = 1579100640"
    by (simp add: take_bit_eq_mod)
  have "formatDateLong zone_first_host 1579100640
        = replace ''2020-01-15 UTC 15:04:00'' ''UTC'' []"
    by (simp add: formatDateLong_def stamp zone_first_host_def ex_host_def)
  moreover have "replace ''2020-01-15 UTC 15:04:00'' ''UTC'' [] = ''2020-01-15  15:04:00''"
    by code_simp
  moreover have "strip_trailing ''2020-01-15 UTC 15:04:00'' ''UTC'' = ''2020-01-15 UTC 15:04:00''"
    by code_simp
  ultimately show ?thesis
    by (simp add: stamp zone_first_host_def ex_host_def)
qed

subsection \<open>Year variants\<close>

lemma contains_sublist: "contains s sub \<longleftrightarrow> sublist sub s"
  by (induction s) (simp_all add: sublist_Cons_right)

lemma byyb_here_prefix: "byyb_here prev s \<Longrightarrow> prefix ''yy'' s"
  by (simp add: byyb_here_def)

lemma yy_only_at_boundaries_step:
  assumes "yy_only_at_boundaries prev (c # cs)" "prefix ''yy'' (c # cs)"
  shows "yy_only_at_boundaries (Some CHR ''y'') (drop 1 cs)"
proof -
  from assms(2) obtain cs' where cs: "c = CHR ''y''" "cs = CHR ''y'' # cs'"
    by (cases cs) auto
  with assms(1) show ?thesis by simp
qed

lemma replace_from_hit:
  "prefix bef (c # cs) \<Longrightarrow>
   replace_from bef aft (c # cs) = aft @ replace_from bef aft (drop (length bef - 1) cs)"
  by simp

lemma replace_from_miss:
  "\<not> prefix bef (c # cs) \<Longrightarrow> replace_from bef aft (c # cs) = c # replace_from bef aft cs"
  by simp

lemma promote_yy_hit:
  "byyb_here prev (c # cs) \<Longrightarrow>
   promote_yy prev (c # cs) = ''yyyy'' @ promote_yy (Some CHR ''y'') (drop 1 cs)"
  by simp

lemma promote_yy_miss:
  "\<not> byyb_here prev (c # cs) \<Longrightarrow> promote_yy prev (c # cs) = c # promote_yy (Some c) cs"
  by simp

lemma replace_from_promote_yy:
  "yy_only_at_boundaries prev s \<Longrightarrow> replace_from ''yy'' ''yyyy'' s = promote_yy prev s"
proof (induction prev s rule: promote_yy.induct)
  case (1 prev)
  then show ?case by simp
next
  case (2 prev c cs)
  show ?case
  proof (cases "byyb_here prev (c # cs)")
    case True
    then have p: "prefix ''yy'' (c # cs)"
      by (rule byyb_here_prefix)
    have "yy_only_at_boundaries (Some CHR ''y'') (drop 1 cs)"
      using "2.prems" p by (rule yy_only_at_boundaries_step)
    then have "replace_from ''yy'' ''yyyy'' (drop 1 cs) = promote_yy (Some CHR ''y'') (drop 1 cs)"
      using "2.IH"(1) True by blast
    moreover have "length ''yy'' - 1 = (1::nat)"
      by simp
    ultimately show ?thesis
      using replace_from_hit [OF p, of "''yyyy''"] promote_yy_hit [OF True] by metis
  next
    case False
    then have np: "\<not> prefix ''yy'' (c # cs)"
      using "2.prems" by auto
    have "yy_only_at_boundaries (Some c) cs"
      using "2.prems" by simp
    then have "replace_from ''yy'' ''yyyy'' cs = promote_yy (Some c) cs"
      using "2.IH"(2) False by blast
    then show ?thesis
      using replace_from_miss [OF np, of "''yyyy''"] promote_yy_miss [OF False] by metis
  qed
qed

text \<open>
  Claim C4, as amended. \<open>yearVariant\<close> returns the pattern with every \<^verbatim>\<open>yyyy\<close>
  replaced by \<^verbatim>\<open>yy\<close> when the pattern contains \<^verbatim>\<open>yyyy\<close>; otherwise, when a \<^verbatim>\<open>yy\<close>
  stands between two word boundaries somewhere, the pattern with every \<^verbatim>\<open>yy\<close>
  replaced by \<^verbatim>\<open>yyyy\<close>, at a word boundary or not; otherwise the pattern
  unchanged. When the pattern contains \<^verbatim>\<open>yyyy\<close>, or every \<^verbatim>\<open>yy\<close> in it stands
  between word boundaries, this is the variant of the specification, which
  promotes only the \<^verbatim>\<open>yy\<close> at word boundaries.
\<close>

theorem yearVariant_replaces_all:
  "yearVariant format =
     (if contains format ''yyyy'' then replace format ''yyyy'' ''yy''
      else if contains_byyb None format then replace format ''yy'' ''yyyy''
      else format)
   \<and> (contains format ''yyyy'' \<longleftrightarrow> sublist ''yyyy'' format)
   \<and> (contains format ''yyyy'' \<or> yy_only_at_boundaries None format
        \<longrightarrow> yearVariant format = yearVariant_spec format)"
proof -
  have "yearVariant format = yearVariant_spec format"
    if "contains format ''yyyy'' \<or> yy_only_at_boundaries None format"
    using that replace_from_promote_yy [of None format]
    by (auto simp: yearVariant_def yearVariant_spec_def replace_def)
  then show ?thesis
    by (simp add: yearVariant_def contains_sublist)
qed

theorem yearVariant_replaces_all_witness:
  "yearVariant ''M/d/yy h:mm AP'' = ''M/d/yyyy h:mm AP''
   \<and> yearVariant ''dddd, MMMM d, yyyy h:mm:ss AP t'' = ''dddd, MMMM d, yy h:mm:ss AP t''
   \<and> yearVariant ''HH:mm'' = ''HH:mm''"
proof -
  define short where "short = ''M/d/yy h:mm AP''"
  define long where "long = ''dddd, MMMM d, yyyy h:mm:ss AP t''"
  define time where "time = ''HH:mm''"
  have only: "yy_only_at_boundaries None short" "contains long ''yyyy''"
    "yy_only_at_boundaries None time"
    unfolding short_def long_def time_def by code_simp+
  have spec: "yearVariant_spec short = ''M/d/yyyy h:mm AP''"
    "yearVariant_spec long = ''dddd, MMMM d, yy h:mm:ss AP t''"
    "yearVariant_spec time = ''HH:mm''"
    unfolding short_def long_def time_def by code_simp+
  have "yearVariant short = ''M/d/yyyy h:mm AP''"
    using yearVariant_replaces_all [of short] only(1) spec(1) by metis
  moreover have "yearVariant long = ''dddd, MMMM d, yy h:mm:ss AP t''"
    using yearVariant_replaces_all [of long] only(2) spec(2) by metis
  moreover have "yearVariant time = ''HH:mm''"
    using yearVariant_replaces_all [of time] only(3) spec(3) by metis
  ultimately show ?thesis
    unfolding short_def long_def time_def by blast
qed

text \<open>
  The claim as stated fails for a pattern with a \<^verbatim>\<open>yy\<close> at a word boundary and
  another one inside a word: both are replaced.
\<close>

theorem yearVariant_promotes_inner_yy:
  "yearVariant ''yy ayy'' = ''yyyy ayyyy'' \<and> yearVariant_spec ''yy ayy'' = ''yyyy ayy''"
  by code_simp

end
